theory Spec2Isabelle
  imports Main "HOL-Library.Sublist" "HOL-Library.Multiset"
begin

section \<open>The release script \<^verbatim>\<open>scripts/update_changelog.py\<close>\<close>

text \<open>
  The script fetches the pull requests merged yesterday, groups them by label, renders a
  markdown fragment, inserts it into the changelog, bumps the version in
  \<^verbatim>\<open>setup.py\<close>, commits, tags, pushes and creates a release. Every function of
  the script is modelled below under its own name. Text (Python \<^verbatim>\<open>str\<close>) is a
  \<^typ>\<open>string\<close>; a file is the text that \<^verbatim>\<open>Path.read_text\<close> returns and
  \<^verbatim>\<open>Path.write_text\<close> receives; the decoding of bytes and the translation of
  line endings that the two perform are modelled apart, on the bytes of a file.
\<close>

subsection \<open>Errors\<close>

text \<open>The exceptions the script can let escape, one constructor per kind.\<close>

datatype error =
    KeyError string
  | AttributeError
  | FileNotFoundError "string list"
  | OverflowError
  | RuntimeError string
  | GithubException
  | TemplateError
  | GitCommandError
  | InvalidGitRepositoryError
  | AssertionError
  | UnicodeDecodeError
  | UnicodeEncodeError

subsection \<open>Pull requests\<close>

text \<open>
  Of a \<^verbatim>\<open>github.PullRequest\<close> the script reads \<^verbatim>\<open>merged\<close>,
  \<^verbatim>\<open>merged_at\<close> (a datetime, \<^verbatim>\<open>None\<close> while the pull request is not merged)
  and \<^verbatim>\<open>labels\<close> (a list of objects with a \<^verbatim>\<open>name\<close>); the template reads
  the number and the title.
\<close>

record date =
  year :: nat
  month :: nat
  day :: nat

record datetime =
  on_date :: date
  second_of_day :: nat

record label =
  name :: string

record pull =
  number :: nat
  title :: string
  merged :: bool
  merged_at :: "datetime option"
  labels :: "label list"

subsection \<open>The classifier\<close>

text \<open>\<^verbatim>\<open>label_names = {l.name for l in pull.labels}\<close>\<close>

definition label_names :: "pull \<Rightarrow> string set" where
  "label_names p = set (map name (labels p))"

text \<open>The \<^verbatim>\<open>if\<close>/\<^verbatim>\<open>elif\<close>/\<^verbatim>\<open>else\<close> chain of the loop body, in its order.\<close>

definition group_name :: "pull \<Rightarrow> string" where
  "group_name p =
     (if ''update'' \<in> label_names p then ''Updated''
      else if ''bug'' \<in> label_names p then ''Fixed''
      else ''Changed'')"

text \<open>
  A Python dict keeps its keys in insertion order, and the template enumerates them, so
  the dict is an association list. \<^verbatim>\<open>d[k].append(x)\<close> raises \<^verbatim>\<open>KeyError\<close>
  when \<open>k\<close> is not a key.
\<close>

type_synonym grouped = "(string \<times> pull list) list"

fun dict_append :: "string \<Rightarrow> pull \<Rightarrow> grouped \<Rightarrow> error + grouped" where
  "dict_append k x [] = Inl (KeyError k)"
| "dict_append k x ((k', xs) # d) =
     (if k = k' then Inr ((k', xs @ [x]) # d)
      else (case dict_append k x d of
              Inl e \<Rightarrow> Inl e
            | Inr d' \<Rightarrow> Inr ((k', xs) # d')))"

text \<open>The \<^verbatim>\<open>for pull in pull_requests_list\<close> loop, threading the dict.\<close>

fun group_loop :: "pull list \<Rightarrow> grouped \<Rightarrow> error + grouped" where
  "group_loop [] g = Inr g"
| "group_loop (p # ps) g =
     (case dict_append (group_name p) p g of
        Inl e \<Rightarrow> Inl e
      | Inr g' \<Rightarrow> group_loop ps g')"

definition group_pulls_by_change_type :: "pull list \<Rightarrow> error + grouped" where
  "group_pulls_by_change_type pull_requests_list =
     group_loop pull_requests_list [(''Changed'', []), (''Fixed'', []), (''Updated'', [])]"

subsection \<open>Module-level configuration\<close>

text \<open>
  The module reads two environment variables and the clock when it is imported.
  \<^verbatim>\<open>os.getenv(name, None)\<close> is \<^verbatim>\<open>None\<close> for an unset variable.
\<close>

record config =
  GITHUB_TOKEN :: "string option"
  GITHUB_REPO :: "string option"
  today :: date
  ROOT :: "string list"

definition DEFAULT_BRANCH :: string where
  "DEFAULT_BRANCH = ''master''"

text \<open>
  \<^verbatim>\<open>dt.date.today() - dt.timedelta(days=1)\<close> on a calendar date of the proleptic
  Gregorian calendar; the day before 0001-01-01 is out of the range of
  \<^verbatim>\<open>datetime.date\<close> and raises \<^verbatim>\<open>OverflowError\<close>.
\<close>

definition is_leap :: "nat \<Rightarrow> bool" where
  "is_leap y = (y mod 4 = 0 \<and> (y mod 100 \<noteq> 0 \<or> y mod 400 = 0))"

definition days_in_month :: "nat \<Rightarrow> nat \<Rightarrow> nat" where
  "days_in_month y m =
     (if m = 2 then (if is_leap y then 29 else 28)
      else if m = 4 \<or> m = 6 \<or> m = 9 \<or> m = 11 then 30
      else 31)"

definition day_before :: "date \<Rightarrow> error + date" where
  "day_before d =
     (if 1 < day d then Inr (d\<lparr>day := day d - 1\<rparr>)
      else if 1 < month d
        then Inr \<lparr>year = year d, month = month d - 1,
                  day = days_in_month (year d) (month d - 1)\<rparr>
      else if 1 < year d then Inr \<lparr>year = year d - 1, month = 12, day = 31\<rparr>
      else Inl OverflowError)"

definition MERGED_DATE :: "config \<Rightarrow> error + date" where
  "MERGED_DATE cfg = day_before (today cfg)"

text \<open>
  The dates of \<^verbatim>\<open>datetime.date\<close>, and \<^verbatim>\<open>date.toordinal()\<close>: the number of
  the day, 0001-01-01 being day 1. The ordinal counts the days before the year, the days
  before the month (from the table of a common year, one more after February of a leap
  year) and the day of the month. Yesterday is the date whose ordinal is one less.
\<close>

definition valid_date :: "date \<Rightarrow> bool" where
  "valid_date d =
     (1 \<le> year d \<and> year d \<le> 9999 \<and> 1 \<le> month d \<and> month d \<le> 12 \<and>
      1 \<le> day d \<and> day d \<le> days_in_month (year d) (month d))"

definition days_before_year :: "nat \<Rightarrow> nat" where
  "days_before_year y = (y - 1) * 365 + (y - 1) div 4 - (y - 1) div 100 + (y - 1) div 400"

definition days_before_month :: "nat \<Rightarrow> nat \<Rightarrow> nat" where
  "days_before_month y m =
     [0, 0, 31, 59, 90, 120, 151, 181, 212, 243, 273, 304, 334] ! m +
     (if 2 < m \<and> is_leap y then 1 else 0)"

definition toordinal :: "date \<Rightarrow> nat" where
  "toordinal d = days_before_year (year d) + days_before_month (year d) (month d) + day d"

text \<open>
  \<^verbatim>\<open>RELEASE = f"{MERGED_DATE:%Y.%m.%d}"\<close>: the year in four decimal digits, the
  month and the day in two, zero-padded (for the years from 1000 on every platform's
  \<^verbatim>\<open>strftime\<close> agrees on \<^verbatim>\<open>%Y\<close>).
\<close>

definition digit :: "nat \<Rightarrow> char" where
  "digit n = ''0123456789'' ! (n mod 10)"

fun decimal :: "nat \<Rightarrow> nat \<Rightarrow> string" where
  "decimal 0 n = []"
| "decimal (Suc w) n = decimal w (n div 10) @ [digit n]"

definition RELEASE :: "date \<Rightarrow> string" where
  "RELEASE d = decimal 4 (year d) @ ''.'' @ decimal 2 (month d) @ ''.'' @ decimal 2 (day d)"

text \<open>An f-string renders \<^verbatim>\<open>None\<close> as the text \<^verbatim>\<open>None\<close>.\<close>

definition format_opt :: "string option \<Rightarrow> string" where
  "format_opt v = (case v of None \<Rightarrow> ''None'' | Some s \<Rightarrow> s)"

subsection \<open>The fetcher\<close>

text \<open>
  The remote repository as the script sees it: whether the API answers, and what
  \<^verbatim>\<open>get_pulls(state=..., sort=..., direction=...)\<close> lists for a state, a sort key
  and a direction, cut into pages of \<open>per_page\<close> items. \<^verbatim>\<open>get_page(0)\<close> is the
  first page.
\<close>

record remote =
  reachable :: bool
  get_pulls :: "string \<Rightarrow> string \<Rightarrow> string \<Rightarrow> pull list"
  per_page :: nat

text \<open>\<^verbatim>\<open>repo.get_pulls(state="closed", sort="updated", direction="desc")\<close>\<close>

definition closed_pulls :: "remote \<Rightarrow> pull list" where
  "closed_pulls repo = get_pulls repo ''closed'' ''updated'' ''desc''"

definition get_page0 :: "remote \<Rightarrow> error + pull list" where
  "get_page0 repo =
     (if reachable repo then Inr (take (per_page repo) (closed_pulls repo))
      else Inl GithubException)"

text \<open>
  The generator's loop, run to its end as \<^verbatim>\<open>list(iter_pulls(repo))\<close> does.
  \<^verbatim>\<open>pull.merged and pull.merged_at.date() == MERGED_DATE\<close> evaluates the second
  operand only for a merged pull request, and \<^verbatim>\<open>None.date()\<close> raises
  \<^verbatim>\<open>AttributeError\<close>.
\<close>

fun iter_loop :: "date \<Rightarrow> pull list \<Rightarrow> pull list \<Rightarrow> error + pull list" where
  "iter_loop target [] yielded = Inr yielded"
| "iter_loop target (p # recent_pulls) yielded =
     (if merged p
      then (case merged_at p of
              None \<Rightarrow> Inl AttributeError
            | Some t \<Rightarrow>
                if on_date t = target then iter_loop target recent_pulls (yielded @ [p])
                else iter_loop target recent_pulls yielded)
      else iter_loop target recent_pulls yielded)"

definition iter_pulls :: "remote \<Rightarrow> date \<Rightarrow> error + pull list" where
  "iter_pulls repo target =
     (case get_page0 repo of
        Inl e \<Rightarrow> Inl e
      | Inr recent_pulls \<Rightarrow> iter_loop target recent_pulls [])"

text \<open>What the fetcher is to select: merged, and merged on the target date.\<close>

definition merged_on :: "date \<Rightarrow> pull \<Rightarrow> bool" where
  "merged_on target p = (merged p \<and> map_option on_date (merged_at p) = Some target)"

subsection \<open>Text operations\<close>

text \<open>
  \<^verbatim>\<open>str.replace(old, new)\<close>: every occurrence of \<open>old\<close>, found from the left
  and not overlapping the one before, is replaced. For the empty \<open>old\<close> Python puts
  \<open>new\<close> before every character and at the end.
\<close>

fun str_replace :: "string \<Rightarrow> string \<Rightarrow> string \<Rightarrow> string" where
  "str_replace [] new s = new @ concat (map (\<lambda>c. c # new) s)"
| "str_replace (a # old) new [] = []"
| "str_replace (a # old) new (c # cs) =
     (if prefix (a # old) (c # cs)
      then new @ str_replace (a # old) new (drop (length (a # old)) (c # cs))
      else c # str_replace (a # old) new cs)"

text \<open>
  The regular expression of \<^verbatim>\<open>update_version\<close>,
  \<^verbatim>\<open>\nversion = "\d+\.\d+\.\d+"\n\<close>, matched at the head of a text; the result is
  the text after the match. Each \<^verbatim>\<open>\d+\<close> is followed by a character that is not
  a digit, so the greedy match is the only one and nothing is left to backtracking. Among
  the characters of \<^typ>\<open>char\<close> the class \<^verbatim>\<open>\d\<close> is \<open>0\<close> to \<open>9\<close>.
\<close>

definition is_digit :: "char \<Rightarrow> bool" where
  "is_digit c = (c \<in> set ''0123456789'')"

fun match_literal :: "string \<Rightarrow> string \<Rightarrow> string option" where
  "match_literal [] s = Some s"
| "match_literal (a # lit) [] = None"
| "match_literal (a # lit) (c # cs) = (if a = c then match_literal lit cs else None)"

definition match_digits :: "string \<Rightarrow> string option" where
  "match_digits s = (if takeWhile is_digit s = [] then None else Some (dropWhile is_digit s))"

definition match_version :: "string \<Rightarrow> string option" where
  "match_version s =
     Option.bind (match_literal ''\<newline>version = \"'' s) (\<lambda>s1.
     Option.bind (match_digits s1) (\<lambda>s2.
     Option.bind (match_literal ''.'' s2) (\<lambda>s3.
     Option.bind (match_digits s3) (\<lambda>s4.
     Option.bind (match_literal ''.'' s4) (\<lambda>s5.
     Option.bind (match_digits s5) (\<lambda>s6.
     match_literal ''\"\<newline>'' s6))))))"

text \<open>A match is never empty; the scan below terminates for that reason.\<close>

lemma match_literal_length:
  "match_literal lit s = Some r \<Longrightarrow> length s = length lit + length r"
  by (induction lit s rule: match_literal.induct) (auto split: if_splits)

lemma match_digits_length:
  "match_digits s = Some r \<Longrightarrow> length r \<le> length s"
  unfolding match_digits_def
  by (auto split: if_splits intro: length_dropWhile_le)

lemma match_version_length:
  assumes "match_version s = Some r"
  shows "length r < length s"
proof -
  from assms obtain s1 s2 s3 s4 s5 s6 where
    m: "match_literal ''\<newline>version = \"'' s = Some s1" "match_digits s1 = Some s2"
       "match_literal ''.'' s2 = Some s3" "match_digits s3 = Some s4"
       "match_literal ''.'' s4 = Some s5" "match_digits s5 = Some s6"
       "match_literal ''\"\<newline>'' s6 = Some r"
    unfolding match_version_def by (auto simp: bind_eq_Some_conv)
  from m(1,3,5,7) [THEN match_literal_length] m(2,4,6) [THEN match_digits_length]
  show ?thesis by simp
qed

text \<open>
  \<^verbatim>\<open>re.sub(pattern, repl, text)\<close> for this pattern: the text is scanned from the left,
  every match is replaced and the scan goes on after it. The replacement is taken as it
  is, which is what \<^verbatim>\<open>re.sub\<close> does with a replacement free of backslashes; a
  backslash would start an escape of the replacement template (a group reference, a
  control character or an error), which is not modelled. The release identifiers of the
  script are dates and have none.
\<close>

function re_sub_version :: "string \<Rightarrow> string \<Rightarrow> string" where
  "re_sub_version repl [] = []"
| "re_sub_version repl (c # cs) =
     (case match_version (c # cs) of
        Some rest \<Rightarrow> repl @ re_sub_version repl rest
      | None \<Rightarrow> c # re_sub_version repl cs)"
  by pat_completeness auto
termination
  by (relation "measure (\<lambda>(repl, s). length s)") (auto dest: match_version_length)

text \<open>Whether some line of the text matches the pattern (a match starts at some position).\<close>

definition has_version_line :: "string \<Rightarrow> bool" where
  "has_version_line s = list_ex (\<lambda>t. match_version t \<noteq> None) (suffixes s)"

text \<open>The number of positions of a text at which a pattern occurs.\<close>

fun count_occ :: "string \<Rightarrow> string \<Rightarrow> nat" where
  "count_occ pat [] = (if pat = [] then 1 else 0)"
| "count_occ pat (c # cs) = (if prefix pat (c # cs) then 1 else 0) + count_occ pat cs"

subsection \<open>The world the publisher changes\<close>

text \<open>
  A path is its list of components (\<^verbatim>\<open>ROOT / "CHANGELOG.md"\<close> appends one). The
  script changes files, runs git commands, creates releases and prints; a failure at
  any step leaves what the steps before have done, so every operation returns the world it
  has reached together with the exception, if any.
\<close>

type_synonym path = "string list"

text \<open>
  The calls the script makes on \<^verbatim>\<open>repo.git\<close>: \<^verbatim>\<open>add(path)\<close>,
  \<^verbatim>\<open>commit(m=..., author=...)\<close> with the message and the author, and
  \<^verbatim>\<open>tag(...)\<close> and \<^verbatim>\<open>push(...)\<close> with their positional arguments. A
  release is created with a tag, a name and a message.
\<close>

datatype git_call =
    Add path
  | Commit string string
  | Tag "string list"
  | Push "string list"

datatype git_release = GitRelease string string string

record world =
  files :: "path \<rightharpoonup> string"
  git_log :: "git_call list"
  releases :: "git_release list"
  stdout :: "string list"

text \<open>
  What lies outside the program: the remote repository, the template engine, whether the
  working directory is a git repository and which branch is checked out in it (the
  script never asks), whether a git command succeeds after the commands run so far, and
  whether the release can be created.
\<close>

record env =
  github :: remote
  render :: "string \<Rightarrow> date \<Rightarrow> grouped \<Rightarrow> error + string"
  is_git_repo :: bool
  active_branch :: string
  git_succeeds :: "git_call list \<Rightarrow> git_call \<Rightarrow> bool"
  release_succeeds :: bool

type_synonym action = "world \<Rightarrow> error option \<times> world"

text \<open>Two statements in sequence: the second runs only when the first has not raised.\<close>

definition and_then :: "action \<Rightarrow> action \<Rightarrow> action" where
  "and_then f g w = (case f w of (None, w') \<Rightarrow> g w' | (Some e, w') \<Rightarrow> (Some e, w'))"

definition read_text :: "world \<Rightarrow> path \<Rightarrow> error + string" where
  "read_text w file_path =
     (case files w file_path of
        None \<Rightarrow> Inl (FileNotFoundError file_path)
      | Some content \<Rightarrow> Inr content)"

definition write_text :: "path \<Rightarrow> string \<Rightarrow> world \<Rightarrow> world" where
  "write_text file_path content w = w\<lparr>files := (files w)(file_path \<mapsto> content)\<rparr>"

subsection \<open>The renderer\<close>

definition generate_md :: "env \<Rightarrow> config \<Rightarrow> date \<Rightarrow> grouped \<Rightarrow> world \<Rightarrow> error + string" where
  "generate_md e cfg merge_date grouped_pulls w =
     (case read_text w (ROOT cfg @ [''.github'', ''changelog-template.md'']) of
        Inl err \<Rightarrow> Inl err
      | Inr template \<Rightarrow> render e template merge_date grouped_pulls)"

subsection \<open>The publisher\<close>

definition marker :: string where
  "marker = ''<!-- GENERATOR_PLACEHOLDER -->''"

definition write_changelog :: "path \<Rightarrow> string \<Rightarrow> action" where
  "write_changelog file_path content w =
     (case read_text w file_path of
        Inl err \<Rightarrow> (Some err, w)
      | Inr old_content \<Rightarrow>
          (None, write_text file_path
             (str_replace marker (marker @ ''\<newline>\<newline>'' @ content) old_content) w))"

definition update_version :: "path \<Rightarrow> string \<Rightarrow> action" where
  "update_version file_path release w =
     (case read_text w file_path of
        Inl err \<Rightarrow> (Some err, w)
      | Inr old_content \<Rightarrow>
          (None, write_text file_path
             (re_sub_version (''version = \"'' @ release @ ''\"'') old_content) w))"

text \<open>One \<^verbatim>\<open>repo.git.<command>(...)\<close> call: it is run, and raises when git fails.\<close>

definition git :: "env \<Rightarrow> git_call \<Rightarrow> action" where
  "git e c w =
     (if git_succeeds e (git_log w) c then None else Some GitCommandError,
      w\<lparr>git_log := git_log w @ [c]\<rparr>)"

fun add_paths :: "env \<Rightarrow> path list \<Rightarrow> action" where
  "add_paths e [] w = (None, w)"
| "add_paths e (p # paths) w = and_then (git e (Add p)) (add_paths e paths) w"

definition server :: "config \<Rightarrow> string" where
  "server cfg =
     ''https://'' @ format_opt (GITHUB_TOKEN cfg) @ ''@github.com/'' @
     format_opt (GITHUB_REPO cfg) @ ''.git''"

definition update_git_repo :: "env \<Rightarrow> config \<Rightarrow> path list \<Rightarrow> string \<Rightarrow> action" where
  "update_git_repo e cfg paths release w =
     (if \<not> is_git_repo e then (Some InvalidGitRepositoryError, w)
      else
        and_then (add_paths e paths)
       (and_then (git e (Commit (''Release '' @ release) ''GitHub Actions <actions@github.com>''))
       (and_then (git e (Tag [''-a'', release]))
       (and_then (git e (Push [server cfg, DEFAULT_BRANCH]))
                 (git e (Push [''--tags'', server cfg, DEFAULT_BRANCH]))))) w)"

definition create_git_release :: "env \<Rightarrow> string \<Rightarrow> string \<Rightarrow> string \<Rightarrow> action" where
  "create_git_release e tag rname message w =
     (if release_succeeds e
      then (None, w\<lparr>releases := releases w @ [GitRelease tag rname message]\<rparr>)
      else (Some GithubException, w))"

text \<open>
  The branches a log of git calls pushes: the last positional argument of each
  \<^verbatim>\<open>push\<close>.
\<close>

fun pushed_branches :: "git_call list \<Rightarrow> string list" where
  "pushed_branches [] = []"
| "pushed_branches (Push args # log) =
     (if args = [] then pushed_branches log else last args # pushed_branches log)"
| "pushed_branches (c # log) = pushed_branches log"

subsection \<open>Below the text: the bytes of a file\<close>

text \<open>
  \<^verbatim>\<open>Path.read_text()\<close> opens the file in text mode: the bytes are decoded with the
  encoding of the locale, which raises \<^verbatim>\<open>UnicodeDecodeError\<close> on bytes that are
  not text, and the line endings \<^verbatim>\<open>\r\n\<close> and \<^verbatim>\<open>\r\<close> are translated to
  \<^verbatim>\<open>\n\<close>. \<^verbatim>\<open>Path.write_text()\<close> writes \<^verbatim>\<open>\n\<close> as
  \<^verbatim>\<open>os.linesep\<close> and encodes. A byte is a \<^typ>\<open>char\<close>. A platform gives the
  codec and the line separator.
\<close>

record platform =
  decode :: "string \<Rightarrow> error + string"
  encode :: "string \<Rightarrow> error + string"
  linesep :: string

fun universal_newlines :: "string \<Rightarrow> string" where
  "universal_newlines [] = []"
| "universal_newlines [c] = [if c = CHR 0x0D then CHR 0x0A else c]"
| "universal_newlines (c # d # cs) =
     (if c = CHR 0x0D \<and> d = CHR 0x0A then CHR 0x0A # universal_newlines cs
      else if c = CHR 0x0D then CHR 0x0A # universal_newlines (d # cs)
      else c # universal_newlines (d # cs))"

definition os_newlines :: "string \<Rightarrow> string \<Rightarrow> string" where
  "os_newlines sep s = concat (map (\<lambda>c. if c = CHR 0x0A then sep else [c]) s)"

definition path_read_text :: "platform \<Rightarrow> string \<Rightarrow> error + string" where
  "path_read_text pf bytes =
     (case decode pf bytes of
        Inl err \<Rightarrow> Inl err
      | Inr s \<Rightarrow> Inr (universal_newlines s))"

definition path_write_text :: "platform \<Rightarrow> string \<Rightarrow> error + string" where
  "path_write_text pf content = encode pf (os_newlines (linesep pf) content)"

text \<open>
  \<^verbatim>\<open>write_changelog\<close> on the bytes of an existing changelog: the bytes the file holds
  afterwards, or the exception.
\<close>

definition write_changelog_bytes :: "platform \<Rightarrow> string \<Rightarrow> string \<Rightarrow> error + string" where
  "write_changelog_bytes pf content bytes =
     (case path_read_text pf bytes of
        Inl err \<Rightarrow> Inl err
      | Inr old_content \<Rightarrow>
          path_write_text pf
            (str_replace marker (marker @ ''\<newline>\<newline>'' @ content) old_content))"

text \<open>
  A POSIX platform with the ASCII codec (UTF-8 decodes the same bytes to the same text
  and refuses the byte \<open>0xFF\<close> as well).
\<close>

definition is_ascii :: "string \<Rightarrow> bool" where
  "is_ascii s = list_all (\<lambda>c. (of_char c :: nat) < 128) s"

definition posix_ascii :: platform where
  "posix_ascii =
     \<lparr>decode = (\<lambda>bytes. if is_ascii bytes then Inr bytes else Inl UnicodeDecodeError),
      encode = (\<lambda>s. if is_ascii s then Inr s else Inl UnicodeEncodeError),
      linesep = ''\<newline>''\<rparr>"

subsection \<open>The entry point\<close>

definition changelog_path :: "config \<Rightarrow> path" where
  "changelog_path cfg = ROOT cfg @ [''CHANGELOG.md'']"

definition setup_py_path :: "config \<Rightarrow> path" where
  "setup_py_path cfg = ROOT cfg @ [''setup.py'']"

text \<open>
  \<^verbatim>\<open>main\<close>, given the target date the module computed when it was imported.
  \<^verbatim>\<open>get_repo\<close> asserts that it is given a name.
\<close>

definition main :: "env \<Rightarrow> config \<Rightarrow> date \<Rightarrow> action" where
  "main e cfg merged_date w =
     (if GITHUB_REPO cfg = None then (Some AssertionError, w)
      else if \<not> reachable (github e) then (Some GithubException, w)
      else
        (case iter_pulls (github e) merged_date of
           Inl err \<Rightarrow> (Some err, w)
         | Inr merged_pulls \<Rightarrow>
             if merged_pulls = []
             then (None, w\<lparr>stdout := stdout w @ [''Nothing was merged, existing.'']\<rparr>)
             else
               (case group_pulls_by_change_type merged_pulls of
                  Inl err \<Rightarrow> (Some err, w)
                | Inr grouped_pulls \<Rightarrow>
                    (case generate_md e cfg merged_date grouped_pulls w of
                       Inl err \<Rightarrow> (Some err, w)
                     | Inr release_changes_summary \<Rightarrow>
                         and_then (write_changelog (changelog_path cfg) release_changes_summary)
                        (and_then (update_version (setup_py_path cfg) (RELEASE merged_date))
                        (and_then (update_git_repo e cfg [changelog_path cfg, setup_py_path cfg]
                                     (RELEASE merged_date))
                                  (create_git_release e (RELEASE merged_date) (RELEASE merged_date)
                                     release_changes_summary))) w))))"

text \<open>
  Running the file as a script: the module-level assignments first, then the check of
  \<^verbatim>\<open>GITHUB_REPOSITORY\<close>, then \<^verbatim>\<open>main\<close>.
\<close>

definition script :: "env \<Rightarrow> config \<Rightarrow> action" where
  "script e cfg w =
     (case MERGED_DATE cfg of
        Inl err \<Rightarrow> (Some err, w)
      | Inr merged_date \<Rightarrow>
          if GITHUB_REPO cfg = None
          then (Some (RuntimeError
                  ''No github repo, please set the environment variable GITHUB_REPOSITORY''), w)
          else main e cfg merged_date w)"

subsection \<open>Worked examples\<close>

text \<open>Pull requests with a given number and label names: merged on a date, and not merged.\<close>

definition merged_pull :: "nat \<Rightarrow> date \<Rightarrow> string list \<Rightarrow> pull" where
  "merged_pull n d names =
     \<lparr>number = n, title = ''PR'', merged = True,
      merged_at = Some \<lparr>on_date = d, second_of_day = 0\<rparr>,
      labels = map (\<lambda>s. \<lparr>name = s\<rparr>) names\<rparr>"

definition example_pull :: "nat \<Rightarrow> string list \<Rightarrow> pull" where
  "example_pull n names = merged_pull n \<lparr>year = 2024, month = 3, day = 5\<rparr> names"

definition unmerged_pull :: "nat \<Rightarrow> pull" where
  "unmerged_pull n =
     \<lparr>number = n, title = ''PR'', merged = False, merged_at = None, labels = []\<rparr>"

text \<open>
  A remote whose first page holds three of its four closed pull requests, a configuration,
  an environment in which every external step succeeds, and a world with a changelog and
  a \<^verbatim>\<open>setup.py\<close>.
\<close>

definition example_remote :: remote where
  "example_remote =
     \<lparr>reachable = True,
      get_pulls = (\<lambda>state sort direction.
        if state = ''closed'' \<and> sort = ''updated'' \<and> direction = ''desc''
        then [merged_pull 1 \<lparr>year = 2024, month = 3, day = 5\<rparr> [''bug''],
              unmerged_pull 2,
              merged_pull 3 \<lparr>year = 2024, month = 3, day = 4\<rparr> [],
              merged_pull 4 \<lparr>year = 2024, month = 3, day = 5\<rparr> []]
        else []),
      per_page = 3\<rparr>"

definition example_config :: config where
  "example_config =
     \<lparr>GITHUB_TOKEN = Some ''s3cret'', GITHUB_REPO = Some ''owner/project'',
      today = \<lparr>year = 2024, month = 3, day = 6\<rparr>, ROOT = [''work'']\<rparr>"

definition example_world :: "string \<Rightarrow> string \<Rightarrow> world" where
  "example_world changelog setup_py =
     \<lparr>files = [[''work'', ''CHANGELOG.md''] \<mapsto> changelog, [''work'', ''setup.py''] \<mapsto> setup_py],
      git_log = [], releases = [], stdout = []\<rparr>"

definition example_env :: env where
  "example_env =
     \<lparr>github = example_remote,
      render = (\<lambda>template merge_date grouped_pulls. Inr template),
      is_git_repo = True,
      active_branch = ''master'',
      git_succeeds = (\<lambda>log c. True),
      release_succeeds = True\<rparr>"

definition example_changelog :: string where
  "example_changelog =
     ''# Changelog\<newline>\<newline>'' @ marker @ ''\<newline>\<newline>## 2024.03.04\<newline>''"

section \<open>The classifier: proofs\<close>

lemma group_name_cases:
  "group_name p = ''Updated'' \<or> group_name p = ''Fixed'' \<or> group_name p = ''Changed''"
  by (simp add: group_name_def)

lemma group_loop_filter:
  "group_loop ps [(''Changed'', c), (''Fixed'', f), (''Updated'', u)] =
     Inr [(''Changed'', c @ filter (\<lambda>p. group_name p = ''Changed'') ps),
          (''Fixed'', f @ filter (\<lambda>p. group_name p = ''Fixed'') ps),
          (''Updated'', u @ filter (\<lambda>p. group_name p = ''Updated'') ps)]"
proof (induction ps arbitrary: c f u)
  case Nil
  show ?case by simp
next
  case (Cons p ps)
  from group_name_cases [of p] show ?case
  proof (elim disjE)
    assume "group_name p = ''Updated''"
    then show ?thesis by (simp add: Cons.IH)
  next
    assume "group_name p = ''Fixed''"
    then show ?thesis by (simp add: Cons.IH)
  next
    assume "group_name p = ''Changed''"
    then show ?thesis by (simp add: Cons.IH)
  qed
qed

lemma group_pulls_filter:
  "group_pulls_by_change_type ps =
     Inr [(''Changed'', filter (\<lambda>p. group_name p = ''Changed'') ps),
          (''Fixed'', filter (\<lambda>p. group_name p = ''Fixed'') ps),
          (''Updated'', filter (\<lambda>p. group_name p = ''Updated'') ps)]"
  unfolding group_pulls_by_change_type_def
  using group_loop_filter [of ps "[]" "[]" "[]"] by simp

text \<open>
  Claim C5. Every pull request of the input is put in the list under \<open>Updated\<close> when its
  label names contain \<open>update\<close> (whatever else they contain), otherwise under
  \<open>Fixed\<close> when they contain \<open>bug\<close>, otherwise under \<open>Changed\<close>; and it is in
  neither of the other two lists.
\<close>

theorem classifier_priority:
  assumes "p \<in> set pulls"
  shows "\<exists>c f u. group_pulls_by_change_type pulls =
            Inr [(''Changed'', c), (''Fixed'', f), (''Updated'', u)] \<and>
          (if ''update'' \<in> label_names p then p \<in> set u \<and> p \<notin> set c \<and> p \<notin> set f
           else if ''bug'' \<in> label_names p then p \<in> set f \<and> p \<notin> set c \<and> p \<notin> set u
           else p \<in> set c \<and> p \<notin> set f \<and> p \<notin> set u)"
  using assms by (simp add: group_pulls_filter group_name_def)

theorem classifier_priority_witness:
  "example_pull 3 [''bug'', ''update''] \<in>
     set [example_pull 1 [''bug''], example_pull 2 [], example_pull 3 [''bug'', ''update'']] \<and>
   (\<exists>c f u. group_pulls_by_change_type
        [example_pull 1 [''bug''], example_pull 2 [], example_pull 3 [''bug'', ''update'']] =
            Inr [(''Changed'', c), (''Fixed'', f), (''Updated'', u)] \<and>
      example_pull 3 [''bug'', ''update''] \<in> set u \<and>
      example_pull 3 [''bug'', ''update''] \<notin> set c \<and>
      example_pull 3 [''bug'', ''update''] \<notin> set f)"
proof -
  let ?p = "example_pull 3 [''bug'', ''update'']"
  let ?ps = "[example_pull 1 [''bug''], example_pull 2 [], ?p]"
  have h: "?p \<in> set ?ps" by simp
  have u: "''update'' \<in> label_names ?p" by (simp add: label_names_def example_pull_def merged_pull_def)
  from classifier_priority [OF h] u h show ?thesis by simp
qed

text \<open>
  Claim C6. The classifier never fails, and its result has exactly the keys \<open>Changed\<close>,
  \<open>Fixed\<close>, \<open>Updated\<close>, in this order, each present even when its list is empty.
  The three lists together hold every input pull request as often as the input does, no
  pull request is in two of them, and each list keeps the order of the input.
\<close>

theorem classifier_partition:
  "\<exists>c f u. group_pulls_by_change_type pulls =
            Inr [(''Changed'', c), (''Fixed'', f), (''Updated'', u)] \<and>
     mset c + mset f + mset u = mset pulls \<and>
     set c \<inter> set f = {} \<and> set c \<inter> set u = {} \<and> set f \<inter> set u = {} \<and>
     subseq c pulls \<and> subseq f pulls \<and> subseq u pulls"
proof -
  let ?c = "filter (\<lambda>p. group_name p = ''Changed'') pulls"
  let ?f = "filter (\<lambda>p. group_name p = ''Fixed'') pulls"
  let ?u = "filter (\<lambda>p. group_name p = ''Updated'') pulls"
  have "mset ?c + mset ?f + mset ?u = mset pulls"
  proof (induction pulls)
    case Nil
    show ?case by simp
  next
    case (Cons p ps)
    from group_name_cases [of p] Cons show ?case by auto
  qed
  moreover have "set ?c \<inter> set ?f = {}" "set ?c \<inter> set ?u = {}" "set ?f \<inter> set ?u = {}"
    by auto
  moreover have "subseq ?c pulls" "subseq ?f pulls" "subseq ?u pulls"
    by simp_all
  ultimately show ?thesis
    unfolding group_pulls_filter by blast
qed

lemma map_group_name_eq:
  assumes "length ps = length qs"
    and "\<forall>i<length ps. label_names (ps ! i) = label_names (qs ! i)"
  shows "map group_name ps = map group_name qs"
  using assms by (intro nth_equalityI) (simp_all add: group_name_def)

text \<open>
  Claim C10. The result depends on the label-name sets only: for two inputs of equal length
  whose pull requests have equal label-name sets position by position, the category chosen
  at each position is the same, and the same positions make up each of the three lists of
  both results. Label order and multiplicity do not enter, since only the set is compared.
\<close>

theorem classifier_label_sets_only:
  assumes "length ps = length qs"
    and "\<forall>i<length ps. label_names (ps ! i) = label_names (qs ! i)"
  shows "map group_name ps = map group_name qs \<and>
    (\<exists>Ic If Iu.
       group_pulls_by_change_type ps =
         Inr [(''Changed'', nths ps Ic), (''Fixed'', nths ps If), (''Updated'', nths ps Iu)] \<and>
       group_pulls_by_change_type qs =
         Inr [(''Changed'', nths qs Ic), (''Fixed'', nths qs If), (''Updated'', nths qs Iu)])"
proof -
  have m: "map group_name ps = map group_name qs"
    by (rule map_group_name_eq [OF assms])
  have g: "group_name (ps ! i) = group_name (qs ! i)" if "i < length ps" for i
    using m that assms(1) by (metis nth_map)
  have sets: "{i. i < length ps \<and> group_name (ps ! i) = k} =
              {i. i < length qs \<and> group_name (qs ! i) = k}" for k
    using g assms(1) by auto
  have P: "group_pulls_by_change_type ps =
      Inr [(''Changed'', nths ps {i. i < length ps \<and> group_name (ps ! i) = ''Changed''}),
           (''Fixed'', nths ps {i. i < length ps \<and> group_name (ps ! i) = ''Fixed''}),
           (''Updated'', nths ps {i. i < length ps \<and> group_name (ps ! i) = ''Updated''})]"
    unfolding group_pulls_filter filter_eq_nths ..
  have Q: "group_pulls_by_change_type qs =
      Inr [(''Changed'', nths qs {i. i < length ps \<and> group_name (ps ! i) = ''Changed''}),
           (''Fixed'', nths qs {i. i < length ps \<and> group_name (ps ! i) = ''Fixed''}),
           (''Updated'', nths qs {i. i < length ps \<and> group_name (ps ! i) = ''Updated''})]"
    unfolding group_pulls_filter filter_eq_nths sets ..
  from m P Q show ?thesis by blast
qed

theorem classifier_label_sets_only_witness:
  "length [example_pull 1 [''bug'', ''docs'', ''bug'']] = length [example_pull 2 [''docs'', ''bug'']] \<and>
   label_names ([example_pull 1 [''bug'', ''docs'', ''bug'']] ! 0) =
   label_names ([example_pull 2 [''docs'', ''bug'']] ! 0) \<and>
   map group_name [example_pull 1 [''bug'', ''docs'', ''bug'']] =
   map group_name [example_pull 2 [''docs'', ''bug'']]"
proof -
  let ?ps = "[example_pull 1 [''bug'', ''docs'', ''bug'']]"
  let ?qs = "[example_pull 2 [''docs'', ''bug'']]"
  have l: "length ?ps = length ?qs" by simp
  have s0: "label_names (?ps ! 0) = label_names (?qs ! 0)"
    by (auto simp: label_names_def example_pull_def merged_pull_def)
  then have s: "\<forall>i<length ?ps. label_names (?ps ! i) = label_names (?qs ! i)"
    by simp
  from classifier_label_sets_only [OF l s] l s0 show ?thesis by blast
qed

section \<open>The calendar: proofs\<close>

lemma days_before_month_12:
  "days_before_month y 12 + 31 = (if is_leap y then 366 else 365)"
  by (simp add: days_before_month_def)

lemma days_before_month_step:
  assumes "1 \<le> m" and "m \<le> 11"
  shows "days_before_month y (Suc m) = days_before_month y m + days_in_month y m"
proof -
  from assms have "m \<in> {1, 2, 3, 4, 5, 6, 7, 8, 9, 10, 11}" by (simp only: insert_iff empty_iff) arith
  then show ?thesis
    by (elim insertE emptyE) (simp_all add: days_before_month_def days_in_month_def)
qed


lemma days_before_year_Suc:
  assumes "1 \<le> y"
  shows "days_before_year (Suc y) = days_before_year y + (if is_leap y then 366 else 365)"
proof -
  from assms obtain k where y: "y = Suc k" by (cases y) auto
  define a b c where "a = k div 4" and "b = k div 100" and "c = k div 400"
  have le: "b \<le> a" unfolding a_def b_def by (rule div_le_mono2) simp_all
  have "(100::nat) dvd 400" "(4::nat) dvd 100" by simp_all
  then have m1: "Suc k mod 400 = 0 \<Longrightarrow> Suc k mod 100 = 0"
    and m2: "Suc k mod 100 = 0 \<Longrightarrow> Suc k mod 4 = 0"
    unfolding mod_eq_0_iff_dvd by (blast intro: dvd_trans)+
  from m1 have n1: "Suc k mod 100 \<noteq> 0 \<Longrightarrow> Suc k mod 400 \<noteq> 0" by metis
  from m2 have n2: "Suc k mod 4 \<noteq> 0 \<Longrightarrow> Suc k mod 100 \<noteq> 0" by metis
  have d4: "Suc k div 4 = (if Suc k mod 4 = 0 then Suc a else a)"
    unfolding a_def by (rule div_Suc)
  have d100: "Suc k div 100 = (if Suc k mod 100 = 0 then Suc b else b)"
    unfolding b_def by (rule div_Suc)
  have d400: "Suc k div 400 = (if Suc k mod 400 = 0 then Suc c else c)"
    unfolding c_def by (rule div_Suc)
  have old: "days_before_year (Suc k) = k * 365 + a - b + c"
    by (simp add: days_before_year_def a_def b_def c_def)
  have new: "days_before_year (Suc (Suc k)) = Suc k * 365 + Suc k div 4 - Suc k div 100 + Suc k div 400"
    by (simp add: days_before_year_def)
  consider "Suc k mod 400 = 0" | "Suc k mod 400 \<noteq> 0" "Suc k mod 100 = 0"
    | "Suc k mod 100 \<noteq> 0" "Suc k mod 4 = 0" | "Suc k mod 4 \<noteq> 0" by blast
  then show ?thesis
  proof cases
    case 1
    with m1 m2 have "Suc k mod 100 = 0" "Suc k mod 4 = 0" by simp_all
    with 1 le show ?thesis unfolding y new old d4 d100 d400 is_leap_def by simp
  next
    case 2
    with m2 have "Suc k mod 4 = 0" by simp
    with 2 le show ?thesis unfolding y new old d4 d100 d400 is_leap_def by simp
  next
    case 3
    have "Suc k mod 400 \<noteq> 0" using 3(1) by (rule n1)
    with 3 le show ?thesis unfolding y new old d4 d100 d400 is_leap_def by simp
  next
    case 4
    have h: "Suc k mod 100 \<noteq> 0" using 4 by (rule n2)
    then have "Suc k mod 400 \<noteq> 0" by (rule n1)
    note this h
    with 4 le show ?thesis unfolding y new old d4 d100 d400 is_leap_def by simp
  qed
qed

lemma days_in_month_ge: "1 \<le> days_in_month y m"
  by (simp add: days_in_month_def)

lemma day_before_yesterday:
  assumes v: "valid_date d"
    and later: "1 < year d \<or> 1 < month d \<or> 1 < day d"
  shows "\<exists>d'. day_before d = Inr d' \<and> valid_date d' \<and> toordinal d' + 1 = toordinal d"
proof -
  from v have "1 \<le> day d" "1 \<le> month d" by (simp_all add: valid_date_def)
  with later consider "1 < day d" | "day d = 1" "1 < month d"
    | "day d = 1" "month d = 1" "1 < year d"
    by atomize_elim linarith
  then show ?thesis
  proof cases
    case 1
    with v show ?thesis by (auto simp: day_before_def valid_date_def toordinal_def)
  next
    case 2
    from 2(2) obtain m where m: "month d = Suc m" "1 \<le> m" by (cases "month d") auto
    with v have m11: "m \<le> 11" by (simp add: valid_date_def)
    have step: "days_before_month (year d) (Suc m) =
                days_before_month (year d) m + days_in_month (year d) m"
      by (rule days_before_month_step [OF m(2) m11])
    from 2 m m11 v step days_in_month_ge [of "year d" m] show ?thesis
      by (simp add: day_before_def valid_date_def toordinal_def)
  next
    case 3
    from 3(3) obtain y where y: "year d = Suc y" "1 \<le> y" by (cases "year d") auto
    have dy: "days_before_year (Suc y) = days_before_year y + (if is_leap y then 366 else 365)"
      by (rule days_before_year_Suc [OF y(2)])
    have dm: "days_before_month y 12 + 31 = (if is_leap y then 366 else 365)"
      by (rule days_before_month_12)
    have d1: "days_before_month (Suc y) 1 = 0" by (simp add: days_before_month_def)
    have v': "valid_date \<lparr>year = y, month = 12, day = 31\<rparr>"
      using v y by (simp add: valid_date_def days_in_month_def)
    have "toordinal \<lparr>year = y, month = 12, day = 31\<rparr> + 1 = toordinal d"
      using dy dm d1 3 y by (simp add: toordinal_def)
    with v' 3 y show ?thesis by (simp add: day_before_def)
  qed
qed

section \<open>The fetcher: proofs\<close>

lemma iter_loop_filter:
  assumes "\<forall>p\<in>set ps. merged p \<longrightarrow> merged_at p \<noteq> None"
  shows "iter_loop d ps acc = Inr (acc @ filter (merged_on d) ps)"
  using assms
proof (induction ps arbitrary: acc)
  case Nil
  show ?case by simp
next
  case (Cons p ps)
  then show ?case by (auto simp: merged_on_def split: option.splits)
qed

lemma iter_pulls_first_page:
  assumes "reachable repo"
    and "\<forall>p\<in>set (take (per_page repo) (closed_pulls repo)). merged p \<longrightarrow> merged_at p \<noteq> None"
  shows "iter_pulls repo target =
           Inr (filter (merged_on target) (take (per_page repo) (closed_pulls repo)))"
  using assms(1) iter_loop_filter [OF assms(2), of target "[]"]
  by (simp add: iter_pulls_def get_page0_def)

text \<open>
  Claim C8. When the script is invoked on a valid date after 0001-01-01, the API answers
  and every merged pull request of the first page carries its merge time, the target
  date \<open>MERGED_DATE\<close> is yesterday (the valid date whose ordinal is one less than
  today's), and the fetcher yields exactly the pull requests of the first page of
  \<^verbatim>\<open>get_pulls(state="closed", sort="updated", direction="desc")\<close> that are merged and
  whose merge date is that target date, in the order of the listing. A pull request
  beyond the first page is not yielded.
\<close>

theorem fetcher_first_page_filter:
  assumes "valid_date (today cfg)"
    and "1 < year (today cfg) \<or> 1 < month (today cfg) \<or> 1 < day (today cfg)"
    and "reachable repo"
    and "\<forall>p\<in>set (take (per_page repo) (get_pulls repo ''closed'' ''updated'' ''desc'')).
           merged p \<longrightarrow> merged_at p \<noteq> None"
  shows "\<exists>target. MERGED_DATE cfg = Inr target \<and> valid_date target \<and>
           toordinal target + 1 = toordinal (today cfg) \<and>
           iter_pulls repo target =
             Inr (filter (merged_on target)
                    (take (per_page repo) (get_pulls repo ''closed'' ''updated'' ''desc'')))"
proof -
  from day_before_yesterday [OF assms(1,2)] obtain target where
    t: "MERGED_DATE cfg = Inr target" "valid_date target"
       "toordinal target + 1 = toordinal (today cfg)"
    unfolding MERGED_DATE_def by blast
  have "iter_pulls repo target =
          Inr (filter (merged_on target)
                 (take (per_page repo) (get_pulls repo ''closed'' ''updated'' ''desc'')))"
    using assms(3) iter_loop_filter [OF assms(4), of target "[]"]
    by (simp add: iter_pulls_def get_page0_def closed_pulls_def)
  with t show ?thesis by blast
qed

theorem fetcher_first_page_filter_witness:
  "valid_date (today example_config) \<and>
   1 < year (today example_config) \<and>
   reachable example_remote \<and>
   MERGED_DATE example_config = Inr \<lparr>year = 2024, month = 3, day = 5\<rparr> \<and>
   toordinal \<lparr>year = 2024, month = 3, day = 5\<rparr> + 1 = toordinal (today example_config) \<and>
   iter_pulls example_remote \<lparr>year = 2024, month = 3, day = 5\<rparr> =
     Inr [merged_pull 1 \<lparr>year = 2024, month = 3, day = 5\<rparr> [''bug'']]"
proof -
  have v: "valid_date (today example_config)"
    by (simp add: example_config_def valid_date_def days_in_month_def)
  have y: "1 < year (today example_config)" by (simp add: example_config_def)
  then have l: "1 < year (today example_config) \<or> 1 < month (today example_config) \<or>
                1 < day (today example_config)" by simp
  have r: "reachable example_remote" by (simp add: example_remote_def)
  have wf: "\<forall>p\<in>set (take (per_page example_remote)
                       (get_pulls example_remote ''closed'' ''updated'' ''desc'')).
              merged p \<longrightarrow> merged_at p \<noteq> None"
    by (simp add: example_remote_def merged_pull_def unmerged_pull_def)
  have m: "MERGED_DATE example_config = Inr \<lparr>year = 2024, month = 3, day = 5\<rparr>"
    by (simp add: MERGED_DATE_def day_before_def example_config_def)
  from fetcher_first_page_filter [OF v l r wf] m v y r show ?thesis
    by (simp add: example_remote_def merged_on_def merged_pull_def unmerged_pull_def)
qed


section \<open>Text operations: proofs\<close>

lemma str_replace_absent:
  assumes "\<not> sublist pat s" and "pat \<noteq> []"
  shows "str_replace pat new s = s"
proof -
  from assms(2) obtain a old where pat: "pat = a # old" by (cases pat) auto
  from assms(1) show ?thesis unfolding pat
  proof (induction s)
    case Nil
    show ?case by simp
  next
    case (Cons c cs)
    then show ?case by (auto simp: sublist_Cons_right)
  qed
qed

lemma prefix_append_long:
  assumes "length pat \<le> length u"
  shows "prefix pat (u @ x) \<longleftrightarrow> prefix pat u"
  using assms by (auto simp: prefix_def append_eq_append_conv2)

lemma count_occ_split:
  "count_occ pat (pre @ pat @ y) + count_occ pat pat =
   count_occ pat (pre @ pat) + count_occ pat (pat @ y)"
proof (induction pre)
  case Nil
  show ?case by simp
next
  case (Cons a pre)
  have "prefix pat ((a # pre @ pat) @ y) \<longleftrightarrow> prefix pat (a # pre @ pat)"
    by (rule prefix_append_long) simp
  with Cons show ?case by simp
qed

lemma count_occ_short: "length s < length pat \<Longrightarrow> count_occ pat s = 0"
  by (induction s) (auto dest: prefix_length_le)

lemma count_occ_self: "pat \<noteq> [] \<Longrightarrow> count_occ pat pat = 1"
  by (cases pat) (simp_all add: count_occ_short)

lemma count_occ_zero_iff: "pat \<noteq> [] \<Longrightarrow> count_occ pat s = 0 \<longleftrightarrow> \<not> sublist pat s"
  by (induction s) (auto simp: sublist_Cons_right)

lemma count_occ_append_ge: "count_occ pat s \<le> count_occ pat (t @ s)"
  by (induction t) auto

lemma count_occ_head: "pat \<noteq> [] \<Longrightarrow> count_occ pat (pat @ y) = 1 + count_occ pat (tl pat @ y)"
  by (cases pat) simp_all

lemma str_replace_head:
  "pat \<noteq> [] \<Longrightarrow> str_replace pat new (pat @ y) = new @ str_replace pat new y"
  by (cases pat) simp_all

lemma str_replace_skip:
  "pat \<noteq> [] \<Longrightarrow> \<not> prefix pat (c # cs) \<Longrightarrow>
   str_replace pat new (c # cs) = c # str_replace pat new cs"
  by (cases pat) auto

lemma str_replace_first:
  assumes "pat \<noteq> []" and "count_occ pat (pre @ pat) = 1"
  shows "str_replace pat new (pre @ pat @ y) = pre @ new @ str_replace pat new y"
  using assms(2)
proof (induction pre)
  case Nil
  from assms(1) show ?case by (simp add: str_replace_head)
next
  case (Cons c pre)
  have ge: "1 \<le> count_occ pat (pre @ pat)"
    using count_occ_append_ge [of pat pat pre] assms(1) by (simp add: count_occ_self)
  with Cons.prems have no: "\<not> prefix pat (c # pre @ pat)" and one: "count_occ pat (pre @ pat) = 1"
    by (auto split: if_splits)
  have "prefix pat ((c # pre @ pat) @ y) \<longleftrightarrow> prefix pat (c # pre @ pat)"
    by (rule prefix_append_long) simp
  with no have "\<not> prefix pat (c # pre @ pat @ y)" by simp
  with assms(1) have "str_replace pat new (c # pre @ pat @ y) = c # str_replace pat new (pre @ pat @ y)"
    by (rule str_replace_skip)
  with Cons.IH [OF one] show ?case by simp
qed

lemma count_occ_past_foreign:
  assumes "c \<notin> set pat" and "length t < length pat"
  shows "count_occ pat (t @ c # z) = count_occ pat z"
  using assms(2)
proof (induction t)
  case Nil
  with assms(1) show ?case by (cases pat) auto
next
  case (Cons a t)
  have "\<not> prefix pat ((a # t) @ c # z)"
  proof
    assume "prefix pat ((a # t) @ c # z)"
    then have "prefix pat (a # t) \<or> (\<exists>us. pat = (a # t) @ us \<and> prefix us (c # z))"
      by (simp only: prefix_append)
    then show False
    proof
      assume "prefix pat (a # t)"
      then have "length pat \<le> length (a # t)" by (rule prefix_length_le)
      with Cons.prems show False by simp
    next
      assume "\<exists>us. pat = (a # t) @ us \<and> prefix us (c # z)"
      then obtain us where us: "pat = (a # t) @ us" "prefix us (c # z)" by blast
      with Cons.prems have "us \<noteq> []" by auto
      with us(2) have "hd us = c" by (cases us) auto
      with \<open>us \<noteq> []\<close> us(1) assms(1) show False by (cases us) auto
    qed
  qed
  with Cons show ?case by simp
qed

lemma re_sub_version_absent:
  assumes "\<forall>t\<in>set (suffixes s). match_version t = None"
  shows "re_sub_version repl s = s"
  using assms
proof (induction s)
  case Nil
  show ?case by simp
next
  case (Cons c cs)
  then show ?case by simp
qed

lemma marker_nonempty: "marker \<noteq> []"
  by (simp add: marker_def)

lemma newline_not_in_marker: "CHR ''\<newline>'' \<notin> set marker"
  by (simp add: marker_def)

lemma single_marker_parts:
  assumes "count_occ marker (pre @ marker @ post) = 1"
  shows "count_occ marker (pre @ marker) = 1" and "\<not> sublist marker post"
proof -
  have ge1: "1 \<le> count_occ marker (pre @ marker)"
    using count_occ_append_ge [of marker marker pre] by (simp add: count_occ_self marker_nonempty)
  have hd: "count_occ marker (marker @ post) = 1 + count_occ marker (tl marker @ post)"
    by (rule count_occ_head [OF marker_nonempty])
  from count_occ_split [of marker pre post] assms
  have sum: "count_occ marker (pre @ marker) + count_occ marker (marker @ post) = 2"
    by (simp add: count_occ_self marker_nonempty)
  with ge1 hd show one: "count_occ marker (pre @ marker) = 1" by simp
  with sum hd have "count_occ marker (tl marker @ post) = 0" by simp
  with count_occ_append_ge [of marker post "tl marker"] have "count_occ marker post = 0" by simp
  then show "\<not> sublist marker post" by (simp add: count_occ_zero_iff marker_nonempty)
qed

lemma count_after_insert:
  assumes "count_occ marker (pre @ marker) = 1"
  shows "count_occ marker (pre @ marker @ ''\<newline>\<newline>'' @ y) = 1 + count_occ marker y"
proof -
  have "count_occ marker (tl marker @ CHR ''\<newline>'' # CHR ''\<newline>'' # y) =
        count_occ marker (CHR ''\<newline>'' # y)"
    by (rule count_occ_past_foreign [OF newline_not_in_marker]) (simp add: marker_def)
  also have "\<dots> = count_occ marker ([] @ CHR ''\<newline>'' # y)" by simp
  also have "\<dots> = count_occ marker y"
    by (rule count_occ_past_foreign [OF newline_not_in_marker]) (simp add: marker_def)
  finally have tl: "count_occ marker (tl marker @ ''\<newline>\<newline>'' @ y) = count_occ marker y" by simp
  from count_occ_split [of marker pre "''\<newline>\<newline>'' @ y"] assms
  have "count_occ marker (pre @ marker @ ''\<newline>\<newline>'' @ y) =
        count_occ marker (marker @ ''\<newline>\<newline>'' @ y)"
    by (simp add: count_occ_self marker_nonempty)
  also have "\<dots> = 1 + count_occ marker (tl marker @ ''\<newline>\<newline>'' @ y)"
    by (rule count_occ_head [OF marker_nonempty])
  finally show ?thesis using tl by simp
qed

text \<open>A release identifier made from a date has digits and dots only.\<close>

lemma digit_is_digit: "is_digit (digit n)"
proof -
  have "n mod 10 < length ''0123456789''" by simp
  then have "''0123456789'' ! (n mod 10) \<in> set ''0123456789''" by (rule nth_mem)
  then show ?thesis by (simp only: digit_def is_digit_def)
qed

lemma decimal_digits: "\<forall>c\<in>set (decimal w n). is_digit c"
  by (induction w n rule: decimal.induct) (simp_all add: digit_is_digit)

lemma RELEASE_no_backslash: "CHR 0x5C \<notin> set (RELEASE d)"
proof -
  have "\<not> is_digit (CHR 0x5C)" by (simp add: is_digit_def)
  with decimal_digits have "CHR 0x5C \<notin> set (decimal w n)" for w n by blast
  then show ?thesis by (simp add: RELEASE_def)
qed

section \<open>The publisher: proofs\<close>

lemma write_text_same: "files w p = Some t \<Longrightarrow> write_text p t w = w"
  by (simp add: write_text_def map_upd_triv)

text \<open>
  Claim C9, as amended. When the changelog file exists and the marker occurs nowhere in
  its text, as \<^verbatim>\<open>read_text\<close> returns it, the changelog update raises nothing and
  hands \<^verbatim>\<open>write_text\<close> the same text: the world, whose files are their texts, is
  as it was, and nothing else is touched.
\<close>

theorem changelog_without_marker_unchanged:
  assumes "files w file_path = Some old_content"
    and "\<not> sublist marker old_content"
  shows "write_changelog file_path content w = (None, w)"
proof -
  have "marker \<noteq> []" by (simp add: marker_def)
  with assms(2) have "str_replace marker (marker @ ''\<newline>\<newline>'' @ content) old_content = old_content"
    by (rule str_replace_absent)
  with assms(1) show ?thesis
    by (simp add: write_changelog_def read_text_def write_text_same)
qed

theorem changelog_without_marker_unchanged_witness:
  "files (example_world ''# Changelog\<newline>'' '''') [''work'', ''CHANGELOG.md''] = Some ''# Changelog\<newline>'' \<and>
   \<not> sublist marker ''# Changelog\<newline>'' \<and>
   write_changelog [''work'', ''CHANGELOG.md''] ''## 2024.03.05\<newline>''
     (example_world ''# Changelog\<newline>'' '''') =
   (None, example_world ''# Changelog\<newline>'' '''')"
proof -
  have f: "files (example_world ''# Changelog\<newline>'' '''') [''work'', ''CHANGELOG.md''] = Some ''# Changelog\<newline>''"
    by (simp add: example_world_def)
  have m: "\<not> sublist marker ''# Changelog\<newline>''"
    by (simp add: marker_def sublist_Cons_right)
  from changelog_without_marker_unchanged [OF f m] f m show ?thesis by simp
qed

text \<open>
  Claim C9 as it is written fails on the bytes of the file. A changelog without the marker
  whose line ends with \<^verbatim>\<open>\r\n\<close> is written back with \<^verbatim>\<open>\n\<close>, so its bytes
  change; and a changelog without the marker that holds the byte \<open>0xFF\<close> is not
  decoded, so the update raises \<^verbatim>\<open>UnicodeDecodeError\<close>.
\<close>

theorem crlf_changelog_rewritten:
  "\<not> sublist marker (''# Changelog'' @ [CHR 0x0D, CHR 0x0A]) \<and>
   write_changelog_bytes posix_ascii ''## 2024.03.05''
     (''# Changelog'' @ [CHR 0x0D, CHR 0x0A]) = Inr ''# Changelog\<newline>'' \<and>
   ''# Changelog\<newline>'' \<noteq> ''# Changelog'' @ [CHR 0x0D, CHR 0x0A] \<and>
   \<not> sublist marker [CHR 0xFF] \<and>
   write_changelog_bytes posix_ascii ''## 2024.03.05'' [CHR 0xFF] = Inl UnicodeDecodeError"
  by (simp add: marker_def sublist_Cons_right write_changelog_bytes_def path_read_text_def
      path_write_text_def posix_ascii_def is_ascii_def os_newlines_def)

text \<open>
  The bytes do stay as they are for an ASCII changelog without the marker and without a
  carriage return, on the POSIX platform.
\<close>

lemma universal_newlines_id: "CHR 0x0D \<notin> set s \<Longrightarrow> universal_newlines s = s"
  by (induction s rule: universal_newlines.induct) auto

lemma os_newlines_id: "os_newlines ''\<newline>'' s = s"
  by (induction s) (simp_all add: os_newlines_def)

lemma write_changelog_bytes_kept:
  assumes "is_ascii bytes" and "CHR 0x0D \<notin> set bytes" and "\<not> sublist marker bytes"
  shows "write_changelog_bytes posix_ascii content bytes = Inr bytes"
proof -
  have "str_replace marker (marker @ ''\<newline>\<newline>'' @ content) bytes = bytes"
    using assms(3) by (rule str_replace_absent) (simp add: marker_def)
  with assms(1,2) show ?thesis
    by (simp add: write_changelog_bytes_def path_read_text_def path_write_text_def
        posix_ascii_def universal_newlines_id os_newlines_id)
qed


text \<open>
  Claim C3, as amended. When the changelog is \<open>pre @ marker @ post\<close> and the marker
  occurs in it exactly once, the update writes \<open>pre\<close>, the marker, a blank line, the
  rendered fragment and then \<open>post\<close>: the text before the marker and the text after it
  are unchanged, and the old entries follow the new fragment. The marker then occurs
  exactly once again provided it does not occur in the fragment followed by \<open>post\<close>.
\<close>

theorem changelog_insert_after_single_marker:
  assumes "files w file_path = Some (pre @ marker @ post)"
    and "count_occ marker (pre @ marker @ post) = 1"
  shows "write_changelog file_path content w =
           (None, write_text file_path
                    (pre @ marker @ ''\<newline>\<newline>'' @ content @ post) w) \<and>
         (\<not> sublist marker (content @ post) \<longrightarrow>
            count_occ marker (pre @ marker @ ''\<newline>\<newline>'' @ content @ post) = 1)"
proof -
  note parts = single_marker_parts [OF assms(2)]
  have "str_replace marker (marker @ ''\<newline>\<newline>'' @ content) (pre @ marker @ post) =
        pre @ (marker @ ''\<newline>\<newline>'' @ content) @
        str_replace marker (marker @ ''\<newline>\<newline>'' @ content) post"
    by (rule str_replace_first [OF marker_nonempty parts(1)])
  also have "str_replace marker (marker @ ''\<newline>\<newline>'' @ content) post = post"
    by (rule str_replace_absent [OF parts(2) marker_nonempty])
  finally have "str_replace marker (marker @ ''\<newline>\<newline>'' @ content) (pre @ marker @ post) =
        pre @ marker @ ''\<newline>\<newline>'' @ content @ post" by simp
  with assms(1) have 1: "write_changelog file_path content w =
           (None, write_text file_path
                    (pre @ marker @ ''\<newline>\<newline>'' @ content @ post) w)"
    by (simp add: write_changelog_def read_text_def)
  have 2: "count_occ marker (pre @ marker @ ''\<newline>\<newline>'' @ content @ post) = 1"
    if "\<not> sublist marker (content @ post)"
    using count_after_insert [OF parts(1), of "content @ post"] that
    by (simp add: count_occ_zero_iff marker_nonempty)
  from 1 2 show ?thesis by blast
qed

theorem changelog_insert_after_single_marker_witness:
  "files (example_world example_changelog '''') [''work'', ''CHANGELOG.md''] =
     Some (''# Changelog\<newline>\<newline>'' @ marker @ ''\<newline>\<newline>## 2024.03.04\<newline>'') \<and>
   count_occ marker (''# Changelog\<newline>\<newline>'' @ marker @ ''\<newline>\<newline>## 2024.03.04\<newline>'') = 1 \<and>
   \<not> sublist marker (''## 2024.03.05\<newline>'' @ ''\<newline>\<newline>## 2024.03.04\<newline>'') \<and>
   write_changelog [''work'', ''CHANGELOG.md''] ''## 2024.03.05\<newline>''
       (example_world example_changelog '''') =
     (None, write_text [''work'', ''CHANGELOG.md'']
        (''# Changelog\<newline>\<newline>'' @ marker @ ''\<newline>\<newline>'' @ ''## 2024.03.05\<newline>'' @
         ''\<newline>\<newline>## 2024.03.04\<newline>'')
        (example_world example_changelog '''')) \<and>
   count_occ marker
     (''# Changelog\<newline>\<newline>'' @ marker @ ''\<newline>\<newline>'' @ ''## 2024.03.05\<newline>'' @
      ''\<newline>\<newline>## 2024.03.04\<newline>'') = 1"
proof -
  let ?pre = "''# Changelog\<newline>\<newline>''" and ?post = "''\<newline>\<newline>## 2024.03.04\<newline>''"
  have f: "files (example_world example_changelog '''') [''work'', ''CHANGELOG.md''] =
     Some (?pre @ marker @ ?post)"
    by (simp add: example_world_def example_changelog_def)
  have c: "count_occ marker (?pre @ marker @ ?post) = 1"
    by (simp add: marker_def)
  have n: "\<not> sublist marker (''## 2024.03.05\<newline>'' @ ?post)"
    by (simp add: marker_def sublist_Cons_right)
  from changelog_insert_after_single_marker [OF f c, of "''## 2024.03.05\<newline>''"] f c n
  show ?thesis by blast
qed

text \<open>
  Claim C3 as it is written fails for a changelog that holds the marker twice:
  \<^verbatim>\<open>str.replace\<close> replaces both occurrences, so the fragment is inserted twice and
  the marker occurs twice afterwards. It fails as well for a changelog with one marker
  when the fragment itself holds the marker: the marker occurs twice afterwards.
\<close>

theorem changelog_two_markers:
  "sublist marker (marker @ ''\<newline>'' @ marker) \<and>
   fst (write_changelog [''work'', ''CHANGELOG.md''] ''new''
          (example_world (marker @ ''\<newline>'' @ marker) '''')) = None \<and>
   files (snd (write_changelog [''work'', ''CHANGELOG.md''] ''new''
          (example_world (marker @ ''\<newline>'' @ marker) ''''))) [''work'', ''CHANGELOG.md''] =
     Some (marker @ ''\<newline>\<newline>new\<newline>'' @ marker @ ''\<newline>\<newline>new'') \<and>
   count_occ marker (marker @ ''\<newline>\<newline>new\<newline>'' @ marker @ ''\<newline>\<newline>new'') = 2 \<and>
   count_occ marker (''# Changelog\<newline>'' @ marker) = 1 \<and>
   files (snd (write_changelog [''work'', ''CHANGELOG.md''] (''see '' @ marker)
          (example_world (''# Changelog\<newline>'' @ marker) ''''))) [''work'', ''CHANGELOG.md''] =
     Some (''# Changelog\<newline>'' @ marker @ ''\<newline>\<newline>see '' @ marker) \<and>
   count_occ marker (''# Changelog\<newline>'' @ marker @ ''\<newline>\<newline>see '' @ marker) = 2"
  by (simp add: marker_def write_changelog_def read_text_def write_text_def example_world_def)

text \<open>
  Claim C2, as amended. When the version file exists and no line of it matches the
  pattern, the version bump raises nothing and leaves the world as it was: the
  substitution finds nothing to replace and the file is written back with the text it
  had. (The release identifier has no backslash, as every date has.)
\<close>

theorem version_without_match_unchanged:
  assumes "files w file_path = Some old_content"
    and "\<not> has_version_line old_content"
    and "CHR 0x5C \<notin> set release"
  shows "update_version file_path release w = (None, w)"
proof -
  from assms(2) have "\<forall>t\<in>set (suffixes old_content). match_version t = None"
    by (simp add: has_version_line_def list_ex_iff)
  then have "re_sub_version (''version = \"'' @ release @ ''\"'') old_content = old_content"
    by (rule re_sub_version_absent)
  with assms(1) show ?thesis
    by (simp add: update_version_def read_text_def write_text_same)
qed

theorem version_without_match_unchanged_witness:
  "files (example_world '''' ''name = x\<newline>version = \"dev\"\<newline>'') [''work'', ''setup.py''] =
     Some ''name = x\<newline>version = \"dev\"\<newline>'' \<and>
   \<not> has_version_line ''name = x\<newline>version = \"dev\"\<newline>'' \<and>
   CHR 0x5C \<notin> set ''2024.03.05'' \<and>
   update_version [''work'', ''setup.py''] ''2024.03.05''
     (example_world '''' ''name = x\<newline>version = \"dev\"\<newline>'') =
   (None, example_world '''' ''name = x\<newline>version = \"dev\"\<newline>'')"
proof -
  let ?t = "''name = x\<newline>version = \"dev\"\<newline>''"
  have f: "files (example_world '''' ?t) [''work'', ''setup.py''] = Some ?t"
    by (simp add: example_world_def)
  have m: "\<not> has_version_line ?t"
    by (simp add: has_version_line_def match_version_def match_digits_def is_digit_def)
  have b: "CHR 0x5C \<notin> set ''2024.03.05''" by simp
  from version_without_match_unchanged [OF f m b] f m b show ?thesis by simp
qed

text \<open>
  Claim C2 as it is written fails: for a version line with two components only, the
  version bump completes without an error and the file keeps its text.
\<close>

theorem version_malformed_no_error:
  "\<not> has_version_line ''name = x\<newline>version = \"1.0\"\<newline>'' \<and>
   fst (update_version [''work'', ''setup.py''] ''2024.03.05''
          (example_world '''' ''name = x\<newline>version = \"1.0\"\<newline>'')) = None \<and>
   files (snd (update_version [''work'', ''setup.py''] ''2024.03.05''
          (example_world '''' ''name = x\<newline>version = \"1.0\"\<newline>''))) [''work'', ''setup.py''] =
     Some ''name = x\<newline>version = \"1.0\"\<newline>''"
  by (simp add: has_version_line_def match_version_def match_digits_def is_digit_def
      update_version_def read_text_def write_text_def example_world_def)

text \<open>
  Claim C1 at a three-line file with exactly one match. The match takes the newline before and the newline after
  the version line with it, and the replacement has neither, so the line before, the new
  version assignment and the line after end up as one line: the other lines do not stay
  as they were.
\<close>

theorem version_bump_joins_lines:
  "length (filter (\<lambda>t. match_version t \<noteq> None)
             (suffixes ''name = x\<newline>version = \"0.1.0\"\<newline>url = y\<newline>'')) = 1 \<and>
   fst (update_version [''work'', ''setup.py''] ''2024.03.05''
          (example_world '''' ''name = x\<newline>version = \"0.1.0\"\<newline>url = y\<newline>'')) = None \<and>
   files (snd (update_version [''work'', ''setup.py''] ''2024.03.05''
          (example_world '''' ''name = x\<newline>version = \"0.1.0\"\<newline>url = y\<newline>''))) [''work'', ''setup.py''] =
     Some ''name = xversion = \"2024.03.05\"url = y\<newline>'' \<and>
   ''name = xversion = \"2024.03.05\"url = y\<newline>'' \<noteq>
     ''name = x\<newline>version = \"2024.03.05\"\<newline>url = y\<newline>''"
  by (simp add: has_version_line_def match_version_def match_digits_def is_digit_def
      update_version_def read_text_def write_text_def example_world_def)

lemma add_paths_ok:
  assumes "\<forall>log c. git_succeeds e log c"
  shows "add_paths e paths w = (None, w\<lparr>git_log := git_log w @ map Add paths\<rparr>)"
proof (induction paths arbitrary: w)
  case Nil
  show ?case by simp
next
  case (Cons p paths)
  from assms show ?case by (simp add: and_then_def git_def Cons.IH)
qed

lemma update_git_repo_ok:
  assumes "is_git_repo e" and "\<forall>log c. git_succeeds e log c"
  shows "update_git_repo e cfg paths release w =
    (None, w\<lparr>git_log := git_log w @ map Add paths @
       [Commit (''Release '' @ release) ''GitHub Actions <actions@github.com>'',
        Tag [''-a'', release],
        Push [server cfg, DEFAULT_BRANCH],
        Push [''--tags'', server cfg, DEFAULT_BRANCH]]\<rparr>)"
  using assms
  by (simp add: update_git_repo_def and_then_def add_paths_ok git_def)

text \<open>
  Claim C4, as amended. In a git repository where every git command succeeds, whatever
  branch is checked out, the git step that \<open>main\<close> runs on the changelog and the
  version file performs, for any release identifier, exactly these calls in this order:
  add the changelog, add the version file, commit with the message \<open>Release\<close>
  followed by the identifier and the author \<open>GitHub Actions <actions@github.com>\<close>,
  tag \<open>-a\<close> with the identifier, push the branch \<open>master\<close> (the constant
  \<open>DEFAULT_BRANCH\<close>) to the URL that embeds the token, and push \<open>--tags\<close> with
  \<open>master\<close> to the same URL. Nothing else of the world changes.
\<close>

theorem publisher_git_sequence:
  assumes "is_git_repo e" and "\<forall>log c. git_succeeds e log c"
  shows "update_git_repo e cfg [changelog_path cfg, setup_py_path cfg] release w =
    (None, w\<lparr>git_log := git_log w @
       [Add (changelog_path cfg), Add (setup_py_path cfg),
        Commit (''Release '' @ release) ''GitHub Actions <actions@github.com>'',
        Tag [''-a'', release],
        Push [''https://'' @ format_opt (GITHUB_TOKEN cfg) @ ''@github.com/'' @
                format_opt (GITHUB_REPO cfg) @ ''.git'', ''master''],
        Push [''--tags'',
              ''https://'' @ format_opt (GITHUB_TOKEN cfg) @ ''@github.com/'' @
                format_opt (GITHUB_REPO cfg) @ ''.git'', ''master'']]\<rparr>)"
  using update_git_repo_ok [OF assms, of cfg "[changelog_path cfg, setup_py_path cfg]" release w]
  by (simp add: server_def DEFAULT_BRANCH_def)

theorem publisher_git_sequence_witness:
  "is_git_repo example_env \<and>
   git_succeeds example_env [] (Add [''work'', ''setup.py'']) \<and>
   update_git_repo example_env example_config
     [changelog_path example_config, setup_py_path example_config] ''2024.03.05''
     (example_world '''' '''') =
   (None, (example_world '''' '''')\<lparr>git_log :=
      [Add [''work'', ''CHANGELOG.md''], Add [''work'', ''setup.py''],
       Commit ''Release 2024.03.05'' ''GitHub Actions <actions@github.com>'',
       Tag [''-a'', ''2024.03.05''],
       Push [''https://s3cret@github.com/owner/project.git'', ''master''],
       Push [''--tags'', ''https://s3cret@github.com/owner/project.git'', ''master'']]\<rparr>)"
proof -
  have r: "is_git_repo example_env" by (simp add: example_env_def)
  have s: "\<forall>log c. git_succeeds example_env log c" by (simp add: example_env_def)
  from publisher_git_sequence [OF r s, of example_config "''2024.03.05''"
      "example_world '''' ''''"] r s
  show ?thesis
    by (simp add: example_config_def example_world_def changelog_path_def setup_py_path_def
        format_opt_def)
qed

text \<open>
  Claim C4 as it is written fails where it says that the current branch is pushed: in a
  working directory with the branch \<open>develop\<close> checked out the git step succeeds and
  both pushes name \<open>master\<close>; \<open>develop\<close> is not pushed.
\<close>

theorem push_ignores_active_branch:
  "active_branch (example_env\<lparr>active_branch := ''develop''\<rparr>) = ''develop'' \<and>
   fst (update_git_repo (example_env\<lparr>active_branch := ''develop''\<rparr>) example_config
          [changelog_path example_config, setup_py_path example_config] ''2024.03.05''
          (example_world '''' '''')) = None \<and>
   pushed_branches (git_log (snd
     (update_git_repo (example_env\<lparr>active_branch := ''develop''\<rparr>) example_config
        [changelog_path example_config, setup_py_path example_config] ''2024.03.05''
        (example_world '''' '''')))) = [''master'', ''master''] \<and>
   ''develop'' \<notin> set [''master'', ''master'']"
  by (simp add: update_git_repo_def and_then_def git_def example_env_def example_world_def
      DEFAULT_BRANCH_def)

section \<open>The entry point: proofs\<close>

text \<open>
  Claim C7. When the script starts normally (the target date is computed, the repository
  name is set, the API answers, every merged pull request of the first page carries its
  merge time) and no closed pull request was merged on the target date, the script ends
  without an error after the fetch: the only change to the world is the line it prints,
  so no file is modified, no git command is run and no release is created.
\<close>

theorem nothing_merged_no_changes:
  assumes "MERGED_DATE cfg = Inr target"
    and "GITHUB_REPO cfg \<noteq> None"
    and "reachable (github e)"
    and "\<forall>p\<in>set (take (per_page (github e)) (closed_pulls (github e))).
           merged p \<longrightarrow> merged_at p \<noteq> None"
    and "\<forall>p\<in>set (closed_pulls (github e)). \<not> merged_on target p"
  shows "script e cfg w = (None, w\<lparr>stdout := stdout w @ [''Nothing was merged, existing.'']\<rparr>)"
proof -
  have "filter (merged_on target) (take (per_page (github e)) (closed_pulls (github e))) = []"
    using assms(5) by (auto simp: filter_empty_conv dest: in_set_takeD)
  with iter_pulls_first_page [OF assms(3,4), of target]
  have "iter_pulls (github e) target = Inr []" by simp
  with assms(1,2,3) show ?thesis by (simp add: script_def main_def)
qed

theorem nothing_merged_no_changes_witness:
  "MERGED_DATE (example_config\<lparr>today := \<lparr>year = 2024, month = 3, day = 1\<rparr>\<rparr>) =
     Inr \<lparr>year = 2024, month = 2, day = 29\<rparr> \<and>
   GITHUB_REPO (example_config\<lparr>today := \<lparr>year = 2024, month = 3, day = 1\<rparr>\<rparr>) \<noteq> None \<and>
   reachable (github example_env) \<and>
   script example_env (example_config\<lparr>today := \<lparr>year = 2024, month = 3, day = 1\<rparr>\<rparr>)
     (example_world example_changelog '''') =
   (None, (example_world example_changelog '''')\<lparr>stdout := [''Nothing was merged, existing.'']\<rparr>)"
proof -
  let ?cfg = "example_config\<lparr>today := \<lparr>year = 2024, month = 3, day = 1\<rparr>\<rparr>"
  let ?d = "\<lparr>year = 2024, month = 2, day = 29\<rparr>"
  have d: "MERGED_DATE ?cfg = Inr ?d"
    by (simp add: MERGED_DATE_def day_before_def days_in_month_def is_leap_def example_config_def)
  have g: "GITHUB_REPO ?cfg \<noteq> None" by (simp add: example_config_def)
  have r: "reachable (github example_env)" by (simp add: example_env_def example_remote_def)
  have wf: "\<forall>p\<in>set (take (per_page (github example_env)) (closed_pulls (github example_env))).
              merged p \<longrightarrow> merged_at p \<noteq> None"
    by (simp add: example_env_def example_remote_def closed_pulls_def merged_pull_def unmerged_pull_def)
  have n: "\<forall>p\<in>set (closed_pulls (github example_env)). \<not> merged_on ?d p"
    by (simp add: example_env_def example_remote_def closed_pulls_def merged_pull_def
        unmerged_pull_def merged_on_def)
  from nothing_merged_no_changes [OF d g r wf n, of "example_world example_changelog ''''"] d g r
  show ?thesis by (simp add: example_world_def)
qed

end
